theory Spec2Isabelle
  imports Main "HOL-Library.Sublist"
begin

section \<open>Python values shared by the services\<close>

text \<open>
  A Python \<open>str\<close> is a sequence of code points; it is modelled as a list over an arbitrary
  character type \<open>'c\<close>. The operator \<open>in\<close> on two strings is the contiguous-sublist test
  \<^const>\<open>sublist\<close>. \<open>str.lower\<close> is a built-in of the interpreter (it is not a character-wise
  map: its result can differ in length from its argument), so it is taken as a parameter
  \<open>lower\<close> wherever the source calls it.

  The handlers of \<open>main.py\<close> store whatever \<open>transcribe_audio\<close> and \<open>get_response\<close> return,
  and both return \<open>None\<close> on failure. A text field of a message therefore holds a string or
  \<open>None\<close>: \<open>'c list option\<close>.
\<close>

datatype py_error = AttributeError | TypeError

section \<open>chat\_history.py\<close>

record 'c message =
  id_msg :: int
  timestamp :: "'c list"
  user :: "'c list option"
  assistant :: "'c list option"
  duration :: int

record 'c ChatHistory =
  messages :: "'c message list"
  max_messages :: int

definition ChatHistory_init :: "int \<Rightarrow> 'c ChatHistory" where
  "ChatHistory_init max_msgs = \<lparr>messages = [], max_messages = max_msgs\<rparr>"

text \<open>\<open>list.pop(i)\<close> for an index \<open>i\<close> inside the list (every call of the source is).\<close>

definition pop :: "nat \<Rightarrow> 'a list \<Rightarrow> 'a list" where
  "pop i xs = take i xs @ drop (Suc i) xs"

text \<open>
  \<open>add_message\<close>: the argument \<open>now\<close> is the value of \<open>datetime.now().isoformat()\<close> read
  by the call. The result is the returned message and the updated history.
\<close>

definition add_message ::
  "'c ChatHistory \<Rightarrow> 'c list \<Rightarrow> 'c list option \<Rightarrow> 'c list option
     \<Rightarrow> 'c message \<times> 'c ChatHistory" where
  "add_message s now user_message ai_response =
     (let message_obj = \<lparr>id_msg = int (length (messages s)) + 1, timestamp = now,
                          user = user_message, assistant = ai_response, duration = 0\<rparr>;
          appended = messages s @ [message_obj];
          kept = (if int (length appended) > max_messages s then pop 0 appended
                  else appended)
      in (message_obj, s\<lparr>messages := kept\<rparr>))"

definition get_last_message :: "'c ChatHistory \<Rightarrow> 'c message option" where
  "get_last_message s = (if messages s \<noteq> [] then Some (last (messages s)) else None)"

definition get_last_timestamp :: "'c ChatHistory \<Rightarrow> 'c list option" where
  "get_last_timestamp s =
     (case get_last_message s of Some l \<Rightarrow> Some (timestamp l) | None \<Rightarrow> None)"

definition get_all_messages :: "'c ChatHistory \<Rightarrow> 'c message list" where
  "get_all_messages s = messages s"

text \<open>
  A slice \<open>xs[start:stop]\<close> with integer bounds: a negative bound counts from the end, and
  every bound is then clamped into \<open>0 .. len(xs)\<close>.
\<close>

definition slice_index :: "int \<Rightarrow> nat \<Rightarrow> nat" where
  "slice_index i n =
     (if i < 0 then (if i + int n < 0 then 0 else nat (i + int n))
      else (if int n < i then n else nat i))"

definition py_slice :: "'a list \<Rightarrow> int \<Rightarrow> int \<Rightarrow> 'a list" where
  "py_slice xs start stop =
     (let lo = slice_index start (length xs); hi = slice_index stop (length xs)
      in take (hi - lo) (drop lo xs))"

definition get_messages :: "'c ChatHistory \<Rightarrow> int \<Rightarrow> int \<Rightarrow> 'c message list" where
  "get_messages s limit offset = py_slice (messages s) offset (offset + limit)"

text \<open>
  The loop of \<open>search_messages\<close>. \<open>.lower()\<close> on \<open>None\<close> raises \<open>AttributeError\<close>; the
  \<open>or\<close> evaluates its right operand only when the left one is false.
\<close>

fun search_loop ::
  "('c list \<Rightarrow> 'c list) \<Rightarrow> 'c list \<Rightarrow> 'c message list \<Rightarrow> 'c message list
     \<Rightarrow> py_error + 'c message list" where
  "search_loop lower query_lower [] results = Inr results"
| "search_loop lower query_lower (msg # rest) results =
     (case user msg of
        None \<Rightarrow> Inl AttributeError
      | Some u \<Rightarrow>
          if sublist query_lower (lower u)
          then search_loop lower query_lower rest (results @ [msg])
          else (case assistant msg of
                  None \<Rightarrow> Inl AttributeError
                | Some a \<Rightarrow>
                    if sublist query_lower (lower a)
                    then search_loop lower query_lower rest (results @ [msg])
                    else search_loop lower query_lower rest results))"

definition search_messages ::
  "('c list \<Rightarrow> 'c list) \<Rightarrow> 'c ChatHistory \<Rightarrow> 'c list \<Rightarrow> py_error + 'c message list" where
  "search_messages lower s query = search_loop lower (lower query) (messages s) []"

definition clear :: "'c ChatHistory \<Rightarrow> 'c ChatHistory" where
  "clear s = s\<lparr>messages := []\<rparr>"

text \<open>
  The loop of \<open>delete_message\<close> over \<open>enumerate(self.messages)\<close>: the index of the first
  message whose id equals the argument, if there is one.
\<close>

fun delete_scan :: "int \<Rightarrow> 'c message list \<Rightarrow> nat \<Rightarrow> nat option" where
  "delete_scan message_id [] i = None"
| "delete_scan message_id (msg # rest) i =
     (if id_msg msg = message_id then Some i else delete_scan message_id rest (Suc i))"

definition delete_message :: "'c ChatHistory \<Rightarrow> int \<Rightarrow> bool \<times> 'c ChatHistory" where
  "delete_message s message_id =
     (case delete_scan message_id (messages s) 0 of
        Some i \<Rightarrow> (True, s\<lparr>messages := pop i (messages s)\<rparr>)
      | None \<Rightarrow> (False, s))"

text \<open>
  The dictionary returned by \<open>get_conversation_summary\<close>: a key that the dictionary does
  not have is \<open>None\<close>. \<open>len(None)\<close> raises \<open>TypeError\<close>.
\<close>

record 'c summary =
  total_messages :: int
  avg_response_length :: int
  first_message :: "'c list option"
  last_message :: "'c list option"

fun sum_response_length :: "int \<Rightarrow> 'c message list \<Rightarrow> py_error + int" where
  "sum_response_length acc [] = Inr acc"
| "sum_response_length acc (m # ms) =
     (case assistant m of
        None \<Rightarrow> Inl TypeError
      | Some a \<Rightarrow> sum_response_length (acc + int (length a)) ms)"

definition get_conversation_summary :: "'c ChatHistory \<Rightarrow> py_error + 'c summary" where
  "get_conversation_summary s =
     (if messages s = [] then
        Inr \<lparr>total_messages = 0, avg_response_length = 0,
             first_message = None, last_message = None\<rparr>
      else
        (let total = int (length (messages s)) in
         case sum_response_length 0 (messages s) of
           Inl e \<Rightarrow> Inl e
         | Inr total_response_length \<Rightarrow>
             Inr \<lparr>total_messages = total,
                  avg_response_length =
                    (if total > 0 then total_response_length div total else 0),
                  first_message = Some (timestamp (messages s ! 0)),
                  last_message = Some (timestamp (last (messages s)))\<rparr>))"

subsection \<open>Sequences of calls\<close>

text \<open>
  The mutating operations as data, so that a property of every sequence of calls on one
  instance can be stated: \<open>run_ops\<close> performs the calls in order, \<open>issued_ids\<close> collects the
  ids of the messages that the calls of \<open>add_message\<close> returned.
\<close>

datatype 'c op = Append "'c list" "'c list option" "'c list option" | Delete int | Clear

fun apply_op :: "'c ChatHistory \<Rightarrow> 'c op \<Rightarrow> 'c ChatHistory" where
  "apply_op s (Append now u a) = snd (add_message s now u a)"
| "apply_op s (Delete message_id) = snd (delete_message s message_id)"
| "apply_op s Clear = clear s"

fun run_ops :: "'c ChatHistory \<Rightarrow> 'c op list \<Rightarrow> 'c ChatHistory" where
  "run_ops s [] = s"
| "run_ops s (x # xs) = run_ops (apply_op s x) xs"

fun issued_ids :: "'c ChatHistory \<Rightarrow> 'c op list \<Rightarrow> int list" where
  "issued_ids s [] = []"
| "issued_ids s (Append now u a # xs) =
     id_msg (fst (add_message s now u a)) # issued_ids (apply_op s (Append now u a)) xs"
| "issued_ids s (x # xs) = issued_ids (apply_op s x) xs"

fun is_Append :: "'c op \<Rightarrow> bool" where
  "is_Append (Append now u a) = True"
| "is_Append x = False"

text \<open>
  A turn is the triple of arguments of one call of \<open>add_message\<close> (clock reading, user
  text, reply); \<open>to_append\<close> makes the call from it.
\<close>

definition to_append :: "'c list \<times> 'c list option \<times> 'c list option \<Rightarrow> 'c op" where
  "to_append x = (case x of (now, u, a) \<Rightarrow> Append now u a)"

text \<open>
  Descriptions used to state results. \<open>stored_message c (k, turn)\<close> is the dictionary
  that line 32 of \<open>add_message\<close> builds in call number \<open>k\<close> (counted from 0) on a fresh
  history of capacity \<open>c\<close>: its id field is the list length before the call plus one,
  which stops growing at \<open>c + 1\<close>. \<open>text_matches lower query t\<close> says that the
  lower-cased query occurs in the lower-cased text \<open>t\<close>, for a text that is a string.
\<close>

definition stored_message ::
  "int \<Rightarrow> nat \<times> ('c list \<times> 'c list option \<times> 'c list option) \<Rightarrow> 'c message" where
  "stored_message c kx =
     (case kx of (k, now, u, a) \<Rightarrow>
        \<lparr>id_msg = min (int k + 1) (c + 1), timestamp = now, user = u, assistant = a,
         duration = 0\<rparr>)"

definition text_matches :: "('c list \<Rightarrow> 'c list) \<Rightarrow> 'c list \<Rightarrow> 'c list option \<Rightarrow> bool" where
  "text_matches lower query t =
     (case t of None \<Rightarrow> False | Some x \<Rightarrow> sublist (lower query) (lower x))"

section \<open>ai\_service.py\<close>

text \<open>
  What a call into a library or over the network can do: raise, or return a value.
\<close>

datatype 'a outcome = Raises | Returns 'a

text \<open>
  Everything outside the process that \<open>AIService\<close> consults. \<open>requests_post\<close> answers the
  request built from the key, the message and \<open>max_tokens\<close> with an exception or with a
  status code and the outcome of reading \<open>data['choices'][0]['message']['content']\<close> from
  the body; \<open>openai_create\<close> stands for \<open>import openai\<close> and \<open>ChatCompletion.create\<close>,
  with the outcome of reading the content from its response. \<open>strftime_now\<close> is the clock
  read as \<open>%H:%M:%S\<close>, \<open>str_lower\<close> is \<open>str.lower\<close>.
\<close>

record world =
  requests_post ::
    "string option \<Rightarrow> string option \<Rightarrow> int \<Rightarrow> (int \<times> string option outcome) outcome"
  openai_create ::
    "string option \<Rightarrow> string option \<Rightarrow> int \<Rightarrow> (string option outcome) outcome"
  strftime_now :: string
  str_lower :: "string \<Rightarrow> string"

record AIService =
  openai_api_key :: "string option"
  perplexity_api_key :: "string option"
  ai_provider :: string

text \<open>Truth value of the result of \<open>os.getenv\<close>: \<open>None\<close> and the empty string are false.\<close>

definition truthy :: "string option \<Rightarrow> bool" where
  "truthy k = (case k of None \<Rightarrow> False | Some v \<Rightarrow> v \<noteq> [])"

definition get_perplexity_response ::
  "world \<Rightarrow> AIService \<Rightarrow> string option \<Rightarrow> int \<Rightarrow> string option" where
  "get_perplexity_response w self user_message max_tokens =
     (case requests_post w (perplexity_api_key self) user_message max_tokens of
        Raises \<Rightarrow> None
      | Returns (status_code, content) \<Rightarrow>
          if status_code = 200
          then (case content of Raises \<Rightarrow> None | Returns c \<Rightarrow> c)
          else None)"

definition get_openai_response ::
  "world \<Rightarrow> AIService \<Rightarrow> string option \<Rightarrow> int \<Rightarrow> string option" where
  "get_openai_response w self user_message max_tokens =
     (case openai_create w (openai_api_key self) user_message max_tokens of
        Raises \<Rightarrow> None
      | Returns content \<Rightarrow> (case content of Raises \<Rightarrow> None | Returns c \<Rightarrow> c))"

definition get_fallback_response :: "world \<Rightarrow> string option \<Rightarrow> py_error + string" where
  "get_fallback_response w user_message =
     (case user_message of
        None \<Rightarrow> Inl AttributeError
      | Some um \<Rightarrow>
          (let message_lower = str_lower w um in
           if sublist ''hello'' message_lower \<or> sublist ''hi'' message_lower
           then Inr ''Hello! How can I assist you today?''
           else if sublist ''how are you'' message_lower
           then Inr ''I am functioning well. Thank you for asking!''
           else if sublist ''weather'' message_lower
           then Inr ''I would need API access to check current weather conditions.''
           else if sublist ''time'' message_lower
           then Inr (''The current time is '' @ strftime_now w @ ''.'')
           else Inr (''I understand you said: '' @ [CHR 0x22] @ um @ [CHR 0x22] @
                     ''. Please configure an AI API to get more detailed responses.'')))"

text \<open>The body of the \<open>try\<close> of \<open>get_response\<close>, then the \<open>except Exception\<close> around it.\<close>

definition get_response_try ::
  "world \<Rightarrow> AIService \<Rightarrow> string option \<Rightarrow> int \<Rightarrow> py_error + string option" where
  "get_response_try w self user_message max_tokens =
     (if ai_provider self = ''perplexity'' \<and> truthy (perplexity_api_key self)
      then Inr (get_perplexity_response w self user_message max_tokens)
      else if truthy (openai_api_key self)
      then Inr (get_openai_response w self user_message max_tokens)
      else (case get_fallback_response w user_message of
              Inl e \<Rightarrow> Inl e
            | Inr reply \<Rightarrow> Inr (Some reply)))"

definition get_response ::
  "world \<Rightarrow> AIService \<Rightarrow> string option \<Rightarrow> int \<Rightarrow> py_error + string option" where
  "get_response w self user_message max_tokens =
     (case get_response_try w self user_message max_tokens of
        Inl e \<Rightarrow> Inr None
      | Inr r \<Rightarrow> Inr r)"

section \<open>Concrete inputs\<close>

text \<open>
  \<open>str.lower\<close> on a string of ASCII characters maps the letters \<open>A\<close> to \<open>Z\<close> to
  \<open>a\<close> to \<open>z\<close> and keeps every other character; \<open>ascii_lower\<close> is used only to
  evaluate the functions on the ASCII strings below.
\<close>

definition lower_char :: "char \<Rightarrow> char" where
  "lower_char ch =
     (case map_of (zip ''ABCDEFGHIJKLMNOPQRSTUVWXYZ'' ''abcdefghijklmnopqrstuvwxyz'') ch of
        Some l \<Rightarrow> l
      | None \<Rightarrow> ch)"

definition ascii_lower :: "string \<Rightarrow> string" where
  "ascii_lower text = map lower_char text"

definition turn1 :: "string \<times> string option \<times> string option" where
  "turn1 = (''09:00'', Some ''Hello Bot'', Some ''Hi!'')"

definition turn2 :: "string \<times> string option \<times> string option" where
  "turn2 = (''09:01'', Some ''weather'', Some ''Rainy'')"

definition turn3 :: "string \<times> string option \<times> string option" where
  "turn3 = (''09:02'', Some ''thanks'', Some ''HELLO again'')"

definition turn4 :: "string \<times> string option \<times> string option" where
  "turn4 = (''09:03'', Some ''bye'', Some ''Bye'')"

text \<open>A turn whose reply is \<open>None\<close>, as the handlers store it when \<open>get_response\<close> failed.\<close>

definition turn_failed :: "string \<times> string option \<times> string option" where
  "turn_failed = (''09:04'', Some ''hi'', None)"

definition history3 :: "char ChatHistory" where
  "history3 = run_ops (ChatHistory_init 100) (map to_append [turn1, turn2, turn3])"

text \<open>Four calls on a history of capacity 2: the two messages kept both carry id 3.\<close>

definition history_dup :: "char ChatHistory" where
  "history_dup = run_ops (ChatHistory_init 2) (map to_append [turn1, turn2, turn3, turn4])"

definition history_failed :: "char ChatHistory" where
  "history_failed = run_ops (ChatHistory_init 100) (map to_append [turn1, turn_failed])"

text \<open>A world in which every provider call raises, and a service with no API key.\<close>

definition offline :: world where
  "offline = \<lparr>requests_post = (\<lambda>key msg max_tokens. Raises),
              openai_create = (\<lambda>key msg max_tokens. Raises),
              strftime_now = ''09:05:00'', str_lower = ascii_lower\<rparr>"

definition unconfigured :: AIService where
  "unconfigured = \<lparr>openai_api_key = None, perplexity_api_key = None,
                   ai_provider = ''perplexity''\<rparr>"

text \<open>A service with a Perplexity key, Perplexity being the selected provider.\<close>

definition perplexity_keyed :: AIService where
  "perplexity_keyed = \<lparr>openai_api_key = None, perplexity_api_key = Some ''pplx-key'',
                       ai_provider = ''perplexity''\<rparr>"

lemmas turn_defs = turn1_def turn2_def turn3_def turn4_def turn_failed_def to_append_def
  ChatHistory_init_def add_message_def Let_def clear_def

lemmas history_defs = history3_def history_dup_def history_failed_def offline_def
  unconfigured_def perplexity_keyed_def

section \<open>Deleting by id\<close>

lemma pop_append_Cons: "pop (length before) (before @ m # after) = before @ after"
  by (simp add: pop_def)

lemma pop0 [simp]: "pop 0 xs = tl xs"
  by (simp add: pop_def drop_Suc)

lemma delete_scan_None:
  "delete_scan mid xs i = None \<longleftrightarrow> (\<forall>m\<in>set xs. id_msg m \<noteq> mid)"
  by (induction xs arbitrary: i) auto

lemma delete_scan_Some:
  "delete_scan mid xs i = Some j \<Longrightarrow>
     \<exists>before m after. xs = before @ m # after \<and> id_msg m = mid \<and>
        (\<forall>b\<in>set before. id_msg b \<noteq> mid) \<and> j = i + length before"
proof (induction xs arbitrary: i)
  case Nil
  then show ?case by simp
next
  case (Cons x xs)
  show ?case
  proof (cases "id_msg x = mid")
    case True
    with Cons.prems have "j = i" by simp
    with True have "x # xs = [] @ x # xs \<and> id_msg x = mid \<and>
        (\<forall>b\<in>set []. id_msg b \<noteq> mid) \<and> j = i + length ([]::'a message list)"
      by simp
    then show ?thesis by blast
  next
    case False
    with Cons.prems have "delete_scan mid xs (Suc i) = Some j" by simp
    from Cons.IH[OF this] obtain before m after where
      h: "xs = before @ m # after" "id_msg m = mid" "\<forall>b\<in>set before. id_msg b \<noteq> mid"
         "j = Suc i + length before"
      by blast
    with False have "x # xs = (x # before) @ m # after \<and> id_msg m = mid \<and>
        (\<forall>b\<in>set (x # before). id_msg b \<noteq> mid) \<and> j = i + length (x # before)"
      by simp
    then show ?thesis by blast
  qed
qed

lemma delete_message_present:
  assumes "\<exists>m\<in>set (messages s). id_msg m = mid"
  shows "\<exists>before m after. messages s = before @ m # after \<and> id_msg m = mid \<and>
          (\<forall>b\<in>set before. id_msg b \<noteq> mid) \<and>
          delete_message s mid = (True, s\<lparr>messages := before @ after\<rparr>)"
proof -
  from assms have "delete_scan mid (messages s) 0 \<noteq> None"
    by (simp add: delete_scan_None)
  then obtain j where j: "delete_scan mid (messages s) 0 = Some j" by blast
  from delete_scan_Some[OF j] obtain before m after where
    h: "messages s = before @ m # after" "id_msg m = mid" "\<forall>b\<in>set before. id_msg b \<noteq> mid"
       "j = length before"
    by auto
  have "delete_message s mid = (True, s\<lparr>messages := before @ after\<rparr>)"
    using j h by (simp add: delete_message_def pop_append_Cons)
  with h show ?thesis by blast
qed

lemma delete_message_absent:
  assumes "\<forall>m\<in>set (messages s). id_msg m \<noteq> mid"
  shows "delete_message s mid = (False, s)"
  using assms by (simp add: delete_message_def delete_scan_None[THEN iffD2])

lemma length_delete:
  "length (messages (snd (delete_message s mid))) \<le> length (messages s)"
proof (cases "\<exists>m\<in>set (messages s). id_msg m = mid")
  case True
  from delete_message_present[OF True] show ?thesis by auto
next
  case False
  then have "\<forall>m\<in>set (messages s). id_msg m \<noteq> mid" by blast
  from delete_message_absent[OF this] show ?thesis by simp
qed

lemma delete_message_length:
  "length (messages s) \<le> Suc (length (messages (snd (delete_message s mid))))"
proof (cases "\<exists>m\<in>set (messages s). id_msg m = mid")
  case True
  from delete_message_present[OF True] show ?thesis by auto
next
  case False
  then have "\<forall>m\<in>set (messages s). id_msg m \<noteq> mid" by blast
  from delete_message_absent[OF this] show ?thesis by simp
qed

lemma filter_id_split:
  assumes "\<forall>b\<in>set before. id_msg b \<noteq> mid" "id_msg m = mid"
  shows "length (filter (\<lambda>x. id_msg x = mid) (before @ m # after)) =
         Suc (length (filter (\<lambda>x. id_msg x = mid) after))"
    and "filter (\<lambda>x. id_msg x = mid) (before @ after) = filter (\<lambda>x. id_msg x = mid) after"
  using assms by (simp_all add: filter_empty_conv[THEN iffD2])

text \<open>
  Claim C4. For every history and every id, \<open>delete_message\<close> returns \<open>True\<close> exactly when
  a held message has that id. When one has, the list splits as \<open>before @ m # after\<close> with
  \<open>m\<close> the first message of that id, and the history afterwards is the old one with the
  list \<open>before @ after\<close>: that one message is gone and nothing else has changed. When none
  has, the result is \<open>False\<close> and the history is unchanged.
\<close>

theorem delete_message_iff_present:
  "fst (delete_message s mid) = (\<exists>m\<in>set (messages s). id_msg m = mid) \<and>
   ((\<exists>m\<in>set (messages s). id_msg m = mid) \<longrightarrow>
      (\<exists>before m after. messages s = before @ m # after \<and> id_msg m = mid \<and>
         (\<forall>b\<in>set before. id_msg b \<noteq> mid) \<and>
         snd (delete_message s mid) = s\<lparr>messages := before @ after\<rparr>)) \<and>
   ((\<forall>m\<in>set (messages s). id_msg m \<noteq> mid) \<longrightarrow> delete_message s mid = (False, s))"
proof (cases "\<exists>m\<in>set (messages s). id_msg m = mid")
  case True
  from delete_message_present[OF True] obtain before m after where
    h: "messages s = before @ m # after" "id_msg m = mid" "\<forall>b\<in>set before. id_msg b \<noteq> mid"
       "delete_message s mid = (True, s\<lparr>messages := before @ after\<rparr>)"
    by blast
  then have "snd (delete_message s mid) = s\<lparr>messages := before @ after\<rparr>" by simp
  with h True show ?thesis by auto
next
  case False
  then have "\<forall>m\<in>set (messages s). id_msg m \<noteq> mid" by blast
  from delete_message_absent[OF this] False show ?thesis by simp
qed

text \<open>
  On the three-message history: id 2 is present and deleting it leaves ids 1 and 3; id 7 is
  absent and deleting it changes nothing.
\<close>

theorem delete_message_iff_present_witness:
  "(\<exists>m\<in>set (messages history3). id_msg m = 2) \<and>
   fst (delete_message history3 2) \<and>
   map id_msg (messages (snd (delete_message history3 2))) = [1, 3] \<and>
   list_all (\<lambda>m. id_msg m \<noteq> 7) (messages history3) \<and>
   delete_message history3 7 = (False, history3)"
  using delete_message_iff_present[of history3 2] delete_message_iff_present[of history3 7]
  by (simp add: history_defs turn_defs delete_message_def pop_def)

text \<open>
  Claim C10. In every history where two or more held messages carry the id given,
  \<open>delete_message\<close> returns \<open>True\<close> and removes only the first of them: the list splits as
  \<open>before @ m # after\<close> with no such id in \<open>before\<close>, the list afterwards is
  \<open>before @ after\<close>, a message with that id is still held in \<open>after\<close>, and the number of
  messages with that id has dropped by exactly one. No call of \<open>delete_message\<close>, on
  any history, shortens the list by more than one message. Such histories are reached by
  calls of \<open>add_message\<close> alone (\<open>history_dup\<close>).
\<close>

theorem delete_message_duplicate_ids:
  fixes s :: "'c ChatHistory"
  assumes "2 \<le> length (filter (\<lambda>m. id_msg m = mid) (messages s))"
  shows "(\<exists>before m after.
           messages s = before @ m # after \<and> id_msg m = mid \<and>
           (\<forall>b\<in>set before. id_msg b \<noteq> mid) \<and>
           delete_message s mid = (True, s\<lparr>messages := before @ after\<rparr>) \<and>
           (\<exists>m'\<in>set after. id_msg m' = mid) \<and>
           length (filter (\<lambda>m. id_msg m = mid) (before @ after)) =
             length (filter (\<lambda>m. id_msg m = mid) (messages s)) - 1) \<and>
         (\<forall>(t::'c ChatHistory) i.
            length (messages t) \<le> Suc (length (messages (snd (delete_message t i)))))"
proof -
  from assms have "filter (\<lambda>m. id_msg m = mid) (messages s) \<noteq> []" by auto
  then have "\<exists>m\<in>set (messages s). id_msg m = mid"
    by (simp add: filter_empty_conv)
  from delete_message_present[OF this] obtain before m after where
    h: "messages s = before @ m # after" "id_msg m = mid" "\<forall>b\<in>set before. id_msg b \<noteq> mid"
       "delete_message s mid = (True, s\<lparr>messages := before @ after\<rparr>)"
    by blast
  have cnt: "length (filter (\<lambda>x. id_msg x = mid) (messages s)) =
             Suc (length (filter (\<lambda>x. id_msg x = mid) after))"
    using filter_id_split(1)[OF h(3) h(2)] h(1) by simp
  with assms have "filter (\<lambda>x. id_msg x = mid) after \<noteq> []" by auto
  then have ex: "\<exists>m'\<in>set after. id_msg m' = mid"
    by (simp add: filter_empty_conv)
  have "length (filter (\<lambda>x. id_msg x = mid) (before @ after)) =
        length (filter (\<lambda>x. id_msg x = mid) (messages s)) - 1"
    using filter_id_split(2)[OF h(3) h(2)] cnt by simp
  with h ex have first: "\<exists>before m after.
           messages s = before @ m # after \<and> id_msg m = mid \<and>
           (\<forall>b\<in>set before. id_msg b \<noteq> mid) \<and>
           delete_message s mid = (True, s\<lparr>messages := before @ after\<rparr>) \<and>
           (\<exists>m'\<in>set after. id_msg m' = mid) \<and>
           length (filter (\<lambda>m. id_msg m = mid) (before @ after)) =
             length (filter (\<lambda>m. id_msg m = mid) (messages s)) - 1"
    by blast
  have "length (messages t) \<le> Suc (length (messages (snd (delete_message t i))))"
    for t :: "'c ChatHistory" and i
    by (rule delete_message_length)
  with first show ?thesis by blast
qed

text \<open>
  On the history of capacity 2 after four calls of \<open>add_message\<close>: both messages carry
  id 3, and deleting id 3 keeps the second one.
\<close>

theorem delete_message_duplicate_ids_witness:
  "2 \<le> length (filter (\<lambda>m. id_msg m = 3) (messages history_dup)) \<and>
   fst (delete_message history_dup 3) \<and>
   map timestamp (messages history_dup) = [''09:02'', ''09:03''] \<and>
   map id_msg (messages history_dup) = [3, 3] \<and>
   messages (snd (delete_message history_dup 3)) = [messages history_dup ! 1]"
  using delete_message_duplicate_ids[of 3 history_dup]
  by (simp add: history_defs turn_defs delete_message_def pop_def)

section \<open>The capacity bound\<close>

lemma max_messages_add [simp]: "max_messages (snd (add_message s now u a)) = max_messages s"
  by (simp add: add_message_def Let_def)

lemma max_messages_delete [simp]: "max_messages (snd (delete_message s mid)) = max_messages s"
  by (simp add: delete_message_def split: option.splits)

lemma max_messages_clear [simp]: "max_messages (clear s) = max_messages s"
  by (simp add: clear_def)

lemma max_messages_apply_op [simp]: "max_messages (apply_op s x) = max_messages s"
  by (cases x) simp_all

lemma max_messages_run_ops [simp]: "max_messages (run_ops s xs) = max_messages s"
  by (induction xs arbitrary: s) simp_all

lemma run_ops_append: "run_ops s (xs @ ys) = run_ops (run_ops s xs) ys"
  by (induction xs arbitrary: s) simp_all

lemma add_message_messages:
  "messages (snd (add_message s now u a)) =
     (if max_messages s < int (length (messages s)) + 1
      then tl (messages s @ [fst (add_message s now u a)])
      else messages s @ [fst (add_message s now u a)])"
  by (simp add: add_message_def Let_def)

lemma add_message_fst:
  "fst (add_message s now u a) =
     \<lparr>id_msg = int (length (messages s)) + 1, timestamp = now, user = u, assistant = a,
      duration = 0\<rparr>"
  by (simp add: add_message_def Let_def)

lemma length_add:
  "int (length (messages s)) \<le> max_messages s \<Longrightarrow>
   int (length (messages (snd (add_message s now u a)))) \<le> max_messages s"
  by (simp add: add_message_def Let_def)

lemma length_apply_op:
  assumes "0 < max_messages s" "int (length (messages s)) \<le> max_messages s"
  shows "int (length (messages (apply_op s x))) \<le> max_messages s"
proof (cases x)
  case (Append now u a)
  with assms(2) show ?thesis by (simp add: length_add)
next
  case (Delete mid)
  have "int (length (messages (snd (delete_message s mid)))) \<le> int (length (messages s))"
    using length_delete[of s mid] by simp
  with assms(2) Delete show ?thesis by simp
next
  case Clear
  with assms(1) show ?thesis by (simp add: clear_def)
qed

lemma length_run_ops:
  "0 < max_messages s \<Longrightarrow> int (length (messages s)) \<le> max_messages s \<Longrightarrow>
   int (length (messages (run_ops s xs))) \<le> max_messages s"
proof (induction xs arbitrary: s)
  case Nil
  then show ?case by simp
next
  case (Cons x xs)
  have "int (length (messages (apply_op s x))) \<le> max_messages (apply_op s x)"
    using length_apply_op[OF Cons.prems] by simp
  moreover have "0 < max_messages (apply_op s x)" using Cons.prems(1) by simp
  ultimately have
    "int (length (messages (run_ops (apply_op s x) xs))) \<le> max_messages (apply_op s x)"
    by (rule Cons.IH[rotated])
  then show ?case by simp
qed

text \<open>
  Claim C3. For a history created with a capacity \<open>c > 0\<close>, after any sequence of calls of
  \<open>add_message\<close>, \<open>delete_message\<close> and \<open>clear\<close>, starting from the empty history, the
  number of held messages is at most \<open>c\<close>. Every state in which a call returns is the end
  of such a sequence, so the bound holds after each call.
\<close>

theorem length_within_max_messages:
  assumes "0 < c"
  shows "int (length (messages (run_ops (ChatHistory_init c) ops))) \<le> c"
  using length_run_ops[of "ChatHistory_init c" ops] assms
  by (simp add: ChatHistory_init_def)

text \<open>Seven calls of all three kinds on a history of capacity 2.\<close>

theorem length_within_max_messages_witness:
  "(0::int) < 2 \<and>
   int (length (messages (run_ops (ChatHistory_init 2)
      [to_append turn1, to_append turn2, to_append turn3, Delete 3, to_append turn4, Clear,
       to_append turn1]))) \<le> 2"
  using length_within_max_messages[of 2 "[to_append turn1, to_append turn2, to_append turn3,
      Delete 3, to_append turn4, Clear, to_append turn1]"]
  by simp

section \<open>The last message\<close>

text \<open>
  Claim C8. On a history whose capacity is positive, \<open>add_message\<close> with two strings
  followed at once by \<open>get_last_message\<close> gives the message that \<open>add_message\<close> returned.
  On a history with no message, \<open>get_last_message\<close> and \<open>get_last_timestamp\<close> give
  \<open>None\<close>.
\<close>

theorem last_message_after_add:
  "(0 < max_messages s \<longrightarrow>
      get_last_message (snd (add_message s now (Some u) (Some a))) =
        Some (fst (add_message s now (Some u) (Some a)))) \<and>
   (messages s = [] \<longrightarrow> get_last_message s = None \<and> get_last_timestamp s = None)"
proof -
  have "get_last_message (snd (add_message s now (Some u) (Some a))) =
        Some (fst (add_message s now (Some u) (Some a)))" if "0 < max_messages s"
  proof (cases "messages s")
    case Nil
    with that show ?thesis by (simp add: add_message_def get_last_message_def Let_def)
  next
    case (Cons x xs)
    then show ?thesis by (simp add: add_message_def get_last_message_def Let_def)
  qed
  then show ?thesis by (simp add: get_last_message_def get_last_timestamp_def)
qed

text \<open>
  On the full history of capacity 2 the call evicts the oldest message and the new one is
  the last; the fresh history has no last message.
\<close>

theorem last_message_after_add_witness:
  "0 < max_messages history_dup \<and>
   get_last_message (snd (add_message history_dup ''09:06'' (Some ''again'') (Some ''ok''))) =
     Some \<lparr>id_msg = 3, timestamp = ''09:06'', user = Some ''again'', assistant = Some ''ok'',
           duration = 0\<rparr> \<and>
   messages (ChatHistory_init 100 :: char ChatHistory) = [] \<and>
   get_last_message (ChatHistory_init 100 :: char ChatHistory) = None \<and>
   get_last_timestamp (ChatHistory_init 100 :: char ChatHistory) = None"
  using last_message_after_add[of history_dup "''09:06''" "''again''" "''ok''"]
    last_message_after_add[of "ChatHistory_init 100 :: char ChatHistory"]
  by (simp add: history_defs turn_defs pop_def)

section \<open>Ids and eviction\<close>

lemma appends_messages:
  assumes c: "0 < c"
  shows "messages (run_ops (ChatHistory_init c) (map to_append ins)) =
         drop (length ins - nat c) (map (stored_message c) (enumerate 0 ins))"
proof (induction ins rule: rev_induct)
  case Nil
  then show ?case by (simp add: ChatHistory_init_def)
next
  case (snoc x ins)
  obtain now u a where x: "x = (now, u, a)" by (cases x) auto
  let ?s = "run_ops (ChatHistory_init c) (map to_append ins)"
  let ?all = "map (stored_message c) (enumerate 0 ins)"
  let ?n = "length ins"
  have cap: "max_messages ?s = c" by (simp add: ChatHistory_init_def)
  have held: "messages ?s = drop (?n - nat c) ?all" by (rule snoc.IH)
  have len: "length (messages ?s) = min ?n (nat c)" unfolding held by auto
  have idm: "int (length (messages ?s)) + 1 = min (int ?n + 1) (c + 1)"
    unfolding len using c by auto
  have m: "fst (add_message ?s now u a) = stored_message c (?n, x)"
    unfolding add_message_fst idm by (simp add: stored_message_def x)
  have all': "map (stored_message c) (enumerate 0 (ins @ [x])) =
              ?all @ [stored_message c (?n, x)]"
    by (simp add: enumerate_append_eq)
  have step: "run_ops (ChatHistory_init c) (map to_append (ins @ [x])) =
              snd (add_message ?s now u a)"
    by (simp add: run_ops_append to_append_def x)
  show ?case
  proof (cases "nat c \<le> ?n")
    case True
    then have over: "max_messages ?s < int (length (messages ?s)) + 1"
      unfolding cap len using c by auto
    have ne: "drop (?n - nat c) ?all \<noteq> []" using True c by auto
    have "messages (snd (add_message ?s now u a)) =
          tl (drop (?n - nat c) ?all @ [stored_message c (?n, x)])"
      unfolding add_message_messages using over m held by simp
    also have "\<dots> = tl (drop (?n - nat c) ?all) @ [stored_message c (?n, x)]"
      using ne by simp
    also have "\<dots> = drop (Suc (?n - nat c)) ?all @ [stored_message c (?n, x)]"
      by (simp add: drop_Suc tl_drop)
    also have "\<dots> = drop (Suc ?n - nat c) (?all @ [stored_message c (?n, x)])"
      using True c by (simp add: Suc_diff_le)
    finally show ?thesis unfolding step all' by simp
  next
    case False
    then have under: "\<not> max_messages ?s < int (length (messages ?s)) + 1"
      unfolding cap len using c by auto
    have "messages (snd (add_message ?s now u a)) = ?all @ [stored_message c (?n, x)]"
      unfolding add_message_messages using under m held False by simp
    moreover have "Suc ?n - nat c = 0" using False by simp
    ultimately show ?thesis unfolding step all' by simp
  qed
qed

text \<open>
  What \<open>N > c\<close> calls of \<open>add_message\<close> leave on a fresh history of capacity \<open>c > 0\<close>:
  exactly \<open>c\<close> messages, those built by the last \<open>c\<close> calls, oldest first; and a call on
  a full history removes exactly the oldest message and appends the new one.
\<close>

lemma appends_past_capacity:
  fixes ins :: "('c list \<times> 'c list option \<times> 'c list option) list"
  assumes "0 < c" "c < int (length ins)"
  shows "int (length (get_all_messages (run_ops (ChatHistory_init c) (map to_append ins)))) = c \<and>
         get_all_messages (run_ops (ChatHistory_init c) (map to_append ins)) =
           drop (length ins - nat c) (map (stored_message c) (enumerate 0 ins)) \<and>
         (\<forall>(s::'c ChatHistory) now u a. max_messages s = c \<and> int (length (messages s)) = c \<longrightarrow>
            messages (snd (add_message s now u a)) =
              tl (messages s) @ [fst (add_message s now u a)])"
proof -
  have held: "messages (run_ops (ChatHistory_init c) (map to_append ins)) =
           drop (length ins - nat c) (map (stored_message c) (enumerate 0 ins))"
    by (rule appends_messages[OF assms(1)])
  have "length (drop (length ins - nat c) (map (stored_message c) (enumerate 0 ins))) = nat c"
    using assms by auto
  then have len: "int (length (messages (run_ops (ChatHistory_init c) (map to_append ins)))) = c"
    unfolding held using assms(1) by simp
  have evict: "messages (snd (add_message s now u a)) =
              tl (messages s) @ [fst (add_message s now u a)]"
    if "max_messages s = c" "int (length (messages s)) = c" for s :: "'c ChatHistory" and now u a
  proof -
    from that assms(1) have "messages s \<noteq> []" by auto
    then show ?thesis unfolding add_message_messages using that by simp
  qed
  from len held evict show ?thesis unfolding get_all_messages_def by blast
qed

text \<open>
  Claim C2. After \<open>N > c\<close> calls of \<open>add_message\<close> on a fresh history of capacity
  \<open>c > 0\<close>, exactly \<open>c\<close> messages should be held, with the ids \<open>N - c + 1 .. N\<close> in order.
  The code, run with \<open>c = 2\<close> and \<open>N = 4\<close>: two messages are held and they are those of
  the third and the fourth call, as the claim says; but their ids are \<open>[3, 3]\<close> and not
  \<open>[3, 4]\<close>, because \<open>add_message\<close> numbers a message by the list length plus one and the
  list of a full history has the same length before every call.
\<close>

theorem retained_ids_repeat_past_capacity:
  "length (get_all_messages
     (run_ops (ChatHistory_init 2) (map to_append [turn1, turn2, turn3, turn4]))) = 2 \<and>
   map timestamp (get_all_messages
     (run_ops (ChatHistory_init 2) (map to_append [turn1, turn2, turn3, turn4]))) =
     [''09:02'', ''09:03''] \<and>
   map id_msg (get_all_messages
     (run_ops (ChatHistory_init 2) (map to_append [turn1, turn2, turn3, turn4]))) = [3, 3] \<and>
   map id_msg (get_all_messages
     (run_ops (ChatHistory_init 2) (map to_append [turn1, turn2, turn3, turn4])))
     \<noteq> [4 - 2 + 1 .. 4]"
  by (simp add: turn_defs pop_def upto_rec1 get_all_messages_def)

lemma issued_ids_appends:
  "\<forall>x\<in>set xs. is_Append x \<Longrightarrow>
   int (length (messages s)) + int (length xs) \<le> max_messages s \<Longrightarrow>
   issued_ids s xs = map (\<lambda>k. int (length (messages s)) + 1 + int k) [0..<length xs]"
proof (induction xs arbitrary: s)
  case Nil
  then show ?case by simp
next
  case (Cons x xs)
  from Cons.prems(1) obtain now u a where x: "x = Append now u a"
    by (cases x) auto
  let ?s' = "snd (add_message s now u a)"
  have under: "\<not> max_messages s < int (length (messages s)) + 1"
    using Cons.prems(2) by simp
  have len': "length (messages ?s') = Suc (length (messages s))"
    unfolding add_message_messages using under by simp
  have "int (length (messages ?s')) + int (length xs) \<le> max_messages ?s'"
    using Cons.prems(2) len' by simp
  moreover have "\<forall>x\<in>set xs. is_Append x" using Cons.prems(1) by simp
  ultimately have IH: "issued_ids ?s' xs =
      map (\<lambda>k. int (length (messages ?s')) + 1 + int k) [0..<length xs]"
    by (rule Cons.IH[rotated])
  have "[0..<length (x # xs)] = 0 # map Suc [0..<length xs]"
    by (simp add: upt_conv_Cons map_Suc_upt del: upt_Suc)
  then have "map (\<lambda>k. int (length (messages s)) + 1 + int k) [0..<length (x # xs)] =
        (int (length (messages s)) + 1) #
        map (\<lambda>k. int (length (messages ?s')) + 1 + int k) [0..<length xs]"
    unfolding len' by (simp add: comp_def)
  then show ?case using IH by (simp add: x add_message_fst)
qed

text \<open>
  In a run of calls of \<open>add_message\<close> with no \<open>delete_message\<close> or \<open>clear\<close> in between,
  and during which the capacity is not exceeded, the ids given are \<open>n + 1, n + 2, ...\<close>
  for a history that held \<open>n\<close> messages at the start.
\<close>

lemma ids_increase_without_eviction:
  assumes "\<forall>x\<in>set xs. is_Append x"
    and "int (length (messages s)) + int (length xs) \<le> max_messages s"
  shows "issued_ids s xs = map (\<lambda>k. int (length (messages s)) + 1 + int k) [0..<length xs] \<and>
         sorted_wrt (<) (issued_ids s xs)"
proof -
  have eq: "issued_ids s xs = map (\<lambda>k. int (length (messages s)) + 1 + int k) [0..<length xs]"
    using assms by (rule issued_ids_appends)
  have "sorted_wrt (<) (map (\<lambda>k. int (length (messages s)) + 1 + int k) [0..<length xs])"
    by (simp add: sorted_wrt_map sorted_wrt_upt del: upt_Suc)
  with eq show ?thesis by simp
qed

text \<open>
  Claim C1. The ids given to appended messages over the lifetime of one history should be
  strictly increasing and never reused, also after deletions, evictions and clears. The
  code, run on three short sequences of calls: after \<open>clear\<close> the next id is 1 again;
  after deleting message 1 of two the next id repeats 2; and at capacity 2 the third and
  the fourth call both give 3. In each the list of ids given is not strictly increasing:
  \<open>add_message\<close> takes the id from the current list length, which every eviction,
  deletion and clear lowers or holds.
\<close>

theorem ids_reused_over_lifetime:
  "issued_ids (ChatHistory_init 100) [to_append turn1, Clear, to_append turn2] = [1, 1] \<and>
   \<not> sorted_wrt (<) (issued_ids (ChatHistory_init 100)
        [to_append turn1, Clear, to_append turn2]) \<and>
   issued_ids (ChatHistory_init 100)
     [to_append turn1, to_append turn2, Delete 1, to_append turn3] = [1, 2, 2] \<and>
   \<not> sorted_wrt (<) (issued_ids (ChatHistory_init 100)
        [to_append turn1, to_append turn2, Delete 1, to_append turn3]) \<and>
   issued_ids (ChatHistory_init 2)
     [to_append turn1, to_append turn2, to_append turn3, to_append turn4] = [1, 2, 3, 3] \<and>
   \<not> sorted_wrt (<) (issued_ids (ChatHistory_init 2)
        [to_append turn1, to_append turn2, to_append turn3, to_append turn4])"
  by (simp add: turn_defs delete_message_def pop_def)

section \<open>Pages\<close>

lemma slice_index_nonneg: "0 \<le> i \<Longrightarrow> slice_index i n = min n (nat i)"
  by (auto simp add: slice_index_def)

lemma py_slice_nonneg:
  assumes "0 \<le> start" "0 \<le> len"
  shows "py_slice xs start (start + len) = take (nat len) (drop (nat start) xs)"
proof (cases "length xs \<le> nat start")
  case True
  then show ?thesis using assms by (simp add: py_slice_def slice_index_nonneg)
next
  case False
  then have lo: "slice_index start (length xs) = nat start"
    using assms by (simp add: slice_index_nonneg)
  have hi: "slice_index (start + len) (length xs) = min (length xs) (nat start + nat len)"
    using assms by (simp add: slice_index_nonneg nat_add_distrib)
  show ?thesis
  proof (cases "nat start + nat len \<le> length xs")
    case True
    then show ?thesis by (simp add: py_slice_def lo hi)
  next
    case False
    then have "length (drop (nat start) xs) \<le> nat len" by simp
    then have "take (nat len) (drop (nat start) xs) = drop (nat start) xs" by simp
    moreover have
      "take (min (length xs) (nat start + nat len) - nat start) (drop (nat start) xs) =
       drop (nat start) xs"
      using False by simp
    ultimately show ?thesis by (simp add: py_slice_def lo hi)
  qed
qed

lemma py_slice_beyond:
  assumes "int (length xs) \<le> start"
  shows "py_slice xs start stop = []"
proof -
  have "slice_index start (length xs) = length xs"
    using assms unfolding slice_index_def by auto
  then show ?thesis by (simp add: py_slice_def)
qed

lemma py_slice_same: "py_slice xs start start = []"
  by (simp add: py_slice_def)

lemma py_slice_sublist: "sublist (py_slice xs start stop) xs"
proof -
  have "sublist (take (slice_index stop (length xs) - slice_index start (length xs))
                   (drop (slice_index start (length xs)) xs))
                (drop (slice_index start (length xs)) xs)"
    by (rule sublist_take)
  moreover have "sublist (drop (slice_index start (length xs)) xs) xs"
    by (rule sublist_drop)
  ultimately show ?thesis
    unfolding py_slice_def Let_def by (rule sublist_order.order_trans)
qed

lemma take_drop_clamp:
  fixes hi lo :: nat
  assumes "n = length xs"
  shows "take (min n hi - min n lo) (drop (min n lo) xs) = take (hi - lo) (drop lo xs)"
proof (cases "lo < n")
  case False
  then show ?thesis using assms by simp
next
  case lo: True
  show ?thesis
  proof (cases "hi \<le> n")
    case True
    then show ?thesis using lo by (simp add: min_def)
  next
    case False
    then have "length (drop lo xs) \<le> hi - lo" "length (drop lo xs) \<le> n - lo"
      using assms lo by simp_all
    then show ?thesis using lo False by (simp add: min_def)
  qed
qed

lemma slice_index_min:
  "slice_index i n = min n (if i < 0 then nat (int n + i) else nat i)"
  unfolding slice_index_def by auto

lemma py_slice_general:
  "py_slice xs start stop =
     take ((if stop < 0 then nat (int (length xs) + stop) else nat stop) -
           (if start < 0 then nat (int (length xs) + start) else nat start))
       (drop (if start < 0 then nat (int (length xs) + start) else nat start) xs)"
  unfolding py_slice_def Let_def slice_index_min
  by (rule take_drop_clamp) simp

text \<open>
  Claim C7, as the code has it. For all integers \<open>limit\<close> and \<open>offset\<close>, \<open>get_messages\<close>
  returns a list (it never raises) that is a contiguous run of the held messages in their
  order. When both arguments are non-negative it is the run of up to \<open>limit\<close> messages
  that starts at index \<open>offset\<close>; an offset at or beyond the end gives the empty list, and
  so does \<open>limit = 0\<close>. A negative argument is not replaced by zero. For all arguments the
  result is the run from the index of \<open>offset\<close> up to, and without, the index of
  \<open>offset + limit\<close>, where the index of a bound \<open>i \<ge> 0\<close> is \<open>i\<close> and the index of a bound
  \<open>i < 0\<close> is \<open>len + i\<close>, or 0 when that is negative. So a negative offset not below
  \<open>- len\<close>, with \<open>0 \<le> limit\<close> and \<open>offset + limit < 0\<close>, gives up to \<open>limit\<close> messages
  from index \<open>len + offset\<close>; and with \<open>offset \<ge> 0\<close> and \<open>offset + limit < 0\<close> the run ends
  before index \<open>len + offset + limit\<close>.
\<close>

theorem get_messages_slice:
  "(0 \<le> limit \<and> 0 \<le> offset \<longrightarrow>
      get_messages s limit offset = take (nat limit) (drop (nat offset) (messages s))) \<and>
   (int (length (messages s)) \<le> offset \<longrightarrow> get_messages s limit offset = []) \<and>
   get_messages s 0 offset = [] \<and>
   sublist (get_messages s limit offset) (messages s) \<and>
   get_messages s limit offset =
     take ((if offset + limit < 0 then nat (int (length (messages s)) + (offset + limit))
            else nat (offset + limit)) -
           (if offset < 0 then nat (int (length (messages s)) + offset) else nat offset))
       (drop (if offset < 0 then nat (int (length (messages s)) + offset) else nat offset)
          (messages s)) \<and>
   (offset < 0 \<and> 0 \<le> int (length (messages s)) + offset \<and> 0 \<le> limit \<and>
    offset + limit < 0 \<longrightarrow>
      get_messages s limit offset =
        take (nat limit) (drop (nat (int (length (messages s)) + offset)) (messages s))) \<and>
   (0 \<le> offset \<and> offset + limit < 0 \<longrightarrow>
      get_messages s limit offset =
        take (nat (int (length (messages s)) + offset + limit) - nat offset)
          (drop (nat offset) (messages s)))"
proof -
  have gen: "get_messages s limit offset =
     take ((if offset + limit < 0 then nat (int (length (messages s)) + (offset + limit))
            else nat (offset + limit)) -
           (if offset < 0 then nat (int (length (messages s)) + offset) else nat offset))
       (drop (if offset < 0 then nat (int (length (messages s)) + offset) else nat offset)
          (messages s))"
    unfolding get_messages_def by (rule py_slice_general)
  have neg_offset: "get_messages s limit offset =
        take (nat limit) (drop (nat (int (length (messages s)) + offset)) (messages s))"
    if "offset < 0" "0 \<le> int (length (messages s)) + offset" "0 \<le> limit" "offset + limit < 0"
  proof -
    have "nat (int (length (messages s)) + (offset + limit)) -
          nat (int (length (messages s)) + offset) = nat limit"
      using that by linarith
    then show ?thesis using that gen by simp
  qed
  have neg_stop: "get_messages s limit offset =
        take (nat (int (length (messages s)) + offset + limit) - nat offset)
          (drop (nat offset) (messages s))"
    if "0 \<le> offset" "offset + limit < 0"
    using that gen by (simp add: add.assoc)
  have nonneg: "get_messages s limit offset = take (nat limit) (drop (nat offset) (messages s))"
    if "0 \<le> limit" "0 \<le> offset"
    using that by (simp add: get_messages_def py_slice_nonneg)
  have beyond: "get_messages s limit offset = []" if "int (length (messages s)) \<le> offset"
    using that by (simp add: get_messages_def py_slice_beyond)
  have zero: "get_messages s 0 offset = []"
    by (simp add: get_messages_def py_slice_same)
  have run: "sublist (get_messages s limit offset) (messages s)"
    by (simp add: get_messages_def py_slice_sublist)
  from nonneg beyond zero run gen neg_offset neg_stop show ?thesis
    by (intro conjI impI) (elim conjE, assumption+)+
qed

text \<open>
  Two messages from index 1 of three; index 3 is the end; offset \<open>-2\<close> with limit 1 is
  the second message; limit \<open>-1\<close> at offset 0 is the first two messages.
\<close>

theorem get_messages_slice_witness:
  "(0::int) \<le> 2 \<and> (0::int) \<le> 1 \<and>
   get_messages history3 2 1 = [messages history3 ! 1, messages history3 ! 2] \<and>
   int (length (messages history3)) \<le> 3 \<and> get_messages history3 2 3 = [] \<and>
   (- 2::int) < 0 \<and> 0 \<le> int (length (messages history3)) + (- 2) \<and> (0::int) \<le> 1 \<and>
   (- 2::int) + 1 < 0 \<and>
   get_messages history3 1 (- 2) = [messages history3 ! 1] \<and>
   (0::int) \<le> 0 \<and> (0::int) + (- 1) < 0 \<and>
   get_messages history3 (- 1) 0 = [messages history3 ! 0, messages history3 ! 1]"
  using get_messages_slice[of 2 1 history3] get_messages_slice[of 2 3 history3]
    get_messages_slice[of 1 "- 2" history3] get_messages_slice[of "- 1" 0 history3]
  by (simp add: history_defs turn_defs)

text \<open>
  With three messages held, \<open>limit = -1\<close> at offset 0 returns the first two messages where
  \<open>limit = 0\<close> returns none, and \<open>offset = -1\<close> with limit 1 returns nothing where offset
  0 returns the first message; \<open>offset = -2\<close> with limit 1 returns the second message.
\<close>

theorem get_messages_negative_counterexample:
  "get_messages history3 (- 1) 0 \<noteq> get_messages history3 0 0 \<and>
   get_messages history3 (- 1) 0 = [messages history3 ! 0, messages history3 ! 1] \<and>
   get_messages history3 1 (- 1) \<noteq> get_messages history3 1 0 \<and>
   get_messages history3 1 (- 2) = [messages history3 ! 1]"
  by (simp add: history_defs turn_defs get_messages_def py_slice_def slice_index_def)

section \<open>Search\<close>

lemma search_loop_strings:
  "\<forall>m\<in>set ms. user m \<noteq> None \<and> assistant m \<noteq> None \<Longrightarrow>
   search_loop lower ql ms results =
     Inr (results @
          filter (\<lambda>m. (case user m of None \<Rightarrow> False | Some x \<Rightarrow> sublist ql (lower x)) \<or>
                       (case assistant m of None \<Rightarrow> False | Some x \<Rightarrow> sublist ql (lower x)))
            ms)"
proof (induction ms arbitrary: results)
  case Nil
  then show ?case by simp
next
  case (Cons m ms)
  from Cons.prems obtain u a where ua: "user m = Some u" "assistant m = Some a" by auto
  from Cons.prems have rest: "\<forall>m\<in>set ms. user m \<noteq> None \<and> assistant m \<noteq> None" by simp
  show ?case using ua Cons.IH[OF rest] by simp
qed

lemma search_loop_empty_query:
  "\<forall>m\<in>set ms. user m \<noteq> None \<Longrightarrow> search_loop lower [] ms results = Inr (results @ ms)"
proof (induction ms arbitrary: results)
  case Nil
  then show ?case by simp
next
  case (Cons m ms)
  from Cons.prems obtain u where u: "user m = Some u" by auto
  from Cons.prems have rest: "\<forall>m\<in>set ms. user m \<noteq> None" by simp
  show ?case using u Cons.IH[OF rest] by simp
qed

text \<open>
  Claim C5, as the code has it. On a history all of whose user and reply texts are strings,
  and for every query string, \<open>search_messages\<close> returns exactly the held messages for
  which the lower-cased query occurs in the lower-cased user text or in the lower-cased
  reply, in their order and with nothing dropped or merged. The empty query returns every
  held message as soon as the user texts are strings (the reply is then not looked at).
  On a history that holds a text \<open>None\<close> the search can raise instead.
\<close>

theorem search_messages_strings:
  "((\<forall>m\<in>set (messages s). user m \<noteq> None \<and> assistant m \<noteq> None) \<longrightarrow>
      search_messages lower s query =
        Inr (filter (\<lambda>m. text_matches lower query (user m) \<or>
                          text_matches lower query (assistant m)) (messages s))) \<and>
   ((\<forall>m\<in>set (messages s). user m \<noteq> None) \<and> lower [] = [] \<longrightarrow>
      search_messages lower s [] = Inr (messages s))"
  by (simp add: search_messages_def search_loop_strings search_loop_empty_query
      text_matches_def)

text \<open>
  \<open>hELLo\<close> matches the first message by its user text and the third by its reply; the
  empty query returns both messages of the history with a failed reply.
\<close>

theorem search_messages_strings_witness:
  "list_all (\<lambda>m. user m \<noteq> None \<and> assistant m \<noteq> None) (messages history3) \<and>
   search_messages ascii_lower history3 ''hELLo'' =
     Inr [messages history3 ! 0, messages history3 ! 2] \<and>
   list_all (\<lambda>m. user m \<noteq> None) (messages history_failed) \<and> ascii_lower [] = [] \<and>
   search_messages ascii_lower history_failed [] = Inr (messages history_failed)"
  using search_messages_strings[of history3 ascii_lower "''hELLo''"]
    search_messages_strings[of history_failed ascii_lower]
  by (simp add: history_defs turn_defs text_matches_def ascii_lower_def lower_char_def
      sublist_code)

text \<open>
  A history that holds the turn whose reply is \<open>None\<close>: the query \<open>zzz\<close> is not in the
  user text \<open>hi\<close>, the reply is lower-cased next, and the search raises.
\<close>

theorem search_messages_raises_counterexample:
  "search_messages ascii_lower history_failed ''zzz'' = Inl AttributeError"
  by (simp add: history_defs turn_defs search_messages_def ascii_lower_def lower_char_def
      sublist_code)

section \<open>Summary\<close>

lemma sum_response_length_strings:
  "map assistant ms = map Some texts \<Longrightarrow>
   sum_response_length acc ms = Inr (acc + (\<Sum>t\<leftarrow>texts. int (length t)))"
proof (induction ms arbitrary: acc texts)
  case Nil
  then show ?case by simp
next
  case (Cons m ms)
  then obtain t ts where
    texts: "texts = t # ts" "assistant m = Some t" "map assistant ms = map Some ts"
    by (cases texts) auto
  with Cons.IH[OF texts(3)] show ?case by simp
qed

text \<open>
  Claim C6. On a non-empty history whose replies are the strings \<open>texts\<close>,
  \<open>get_conversation_summary\<close> returns the number of held messages, the sum of the lengths
  of the replies divided by that number and rounded down, and the timestamps of the oldest
  and of the newest held message. On an empty history it returns 0 and 0 and no timestamp.
\<close>

theorem conversation_summary:
  "(messages s \<noteq> [] \<and> map assistant (messages s) = map Some texts \<longrightarrow>
      get_conversation_summary s =
        Inr \<lparr>total_messages = int (length (messages s)),
             avg_response_length = (\<Sum>t\<leftarrow>texts. int (length t)) div int (length (messages s)),
             first_message = Some (timestamp (hd (messages s))),
             last_message = Some (timestamp (last (messages s)))\<rparr>) \<and>
   (messages s = [] \<longrightarrow>
      get_conversation_summary s =
        Inr \<lparr>total_messages = 0, avg_response_length = 0,
             first_message = None, last_message = None\<rparr>)"
proof -
  have "get_conversation_summary s =
        Inr \<lparr>total_messages = int (length (messages s)),
             avg_response_length = (\<Sum>t\<leftarrow>texts. int (length t)) div int (length (messages s)),
             first_message = Some (timestamp (hd (messages s))),
             last_message = Some (timestamp (last (messages s)))\<rparr>"
    if ne: "messages s \<noteq> []" and str: "map assistant (messages s) = map Some texts"
  proof -
    have "sum_response_length 0 (messages s) = Inr (\<Sum>t\<leftarrow>texts. int (length t))"
      using sum_response_length_strings[OF str, of 0] by simp
    moreover have "messages s ! 0 = hd (messages s)" using ne by (simp add: hd_conv_nth)
    ultimately show ?thesis using ne
      by (simp add: get_conversation_summary_def Let_def)
  qed
  moreover have "get_conversation_summary s =
        Inr \<lparr>total_messages = 0, avg_response_length = 0,
             first_message = None, last_message = None\<rparr>" if "messages s = []"
    using that by (simp add: get_conversation_summary_def)
  ultimately show ?thesis by blast
qed

text \<open>
  Replies of lengths 3, 5 and 11: the mean 19 / 3 is rounded down to 6; the fresh history
  gives the zero summary.
\<close>

theorem conversation_summary_witness:
  "messages history3 \<noteq> [] \<and>
   map assistant (messages history3) = map Some [''Hi!'', ''Rainy'', ''HELLO again''] \<and>
   get_conversation_summary history3 =
     Inr \<lparr>total_messages = 3, avg_response_length = 6,
          first_message = Some ''09:00'', last_message = Some ''09:02''\<rparr> \<and>
   messages (ChatHistory_init 100 :: char ChatHistory) = [] \<and>
   get_conversation_summary (ChatHistory_init 100 :: char ChatHistory) =
     Inr \<lparr>total_messages = 0, avg_response_length = 0,
          first_message = None, last_message = None\<rparr>"
  using conversation_summary[of history3 "[''Hi!'', ''Rainy'', ''HELLO again'']"]
    conversation_summary[of "ChatHistory_init 100 :: char ChatHistory"]
  by (simp add: history_defs turn_defs)

section \<open>The responder\<close>

lemma get_fallback_response_string: "\<exists>reply. get_fallback_response w (Some um) = Inr reply"
  by (simp add: get_fallback_response_def Let_def)

lemma get_response_provider_fails:
  assumes "ai_provider self = ''perplexity''" "truthy (perplexity_api_key self)"
    and "requests_post w (perplexity_api_key self) um max_tokens = Raises \<or>
         (\<exists>status content. status \<noteq> 200 \<and>
            requests_post w (perplexity_api_key self) um max_tokens = Returns (status, content))"
  shows "get_response w self um max_tokens = Inr None"
  using assms
  by (auto simp add: get_response_def get_response_try_def get_perplexity_response_def)

lemma get_response_None_message:
  assumes "\<not> truthy (perplexity_api_key self)" "\<not> truthy (openai_api_key self)"
  shows "get_response w self None max_tokens = Inr None"
  using assms by (simp add: get_response_def get_response_try_def get_fallback_response_def)

text \<open>
  Claim C9, as the code has it. For every input string, whatever the providers and the
  clock do, \<open>get_response\<close> raises nothing: it returns a string or \<open>None\<close>. When no
  provider is configured, that is when the selected provider is not Perplexity with a
  non-empty key and there is no non-empty OpenAI key either, it returns the reply that
  \<open>_get_fallback_response\<close> computes locally from the input, which is a string and not
  \<open>None\<close>. When Perplexity is selected and has a key, and the request raises or is
  answered with a status other than 200, the result is \<open>None\<close>: the fallback is not used
  for a provider that is configured and fails. (The content that a provider sends is taken
  to be a string or null.)
\<close>

theorem get_response_never_raises:
  "(\<exists>r. get_response w self (Some um) max_tokens = Inr r) \<and>
   (\<not> (ai_provider self = ''perplexity'' \<and> truthy (perplexity_api_key self)) \<and>
    \<not> truthy (openai_api_key self) \<longrightarrow>
      (\<exists>reply. get_fallback_response w (Some um) = Inr reply \<and>
               get_response w self (Some um) max_tokens = Inr (Some reply))) \<and>
   (ai_provider self = ''perplexity'' \<and> truthy (perplexity_api_key self) \<and>
    (requests_post w (perplexity_api_key self) (Some um) max_tokens = Raises \<or>
     (\<exists>status content. status \<noteq> 200 \<and>
        requests_post w (perplexity_api_key self) (Some um) max_tokens =
          Returns (status, content))) \<longrightarrow>
      get_response w self (Some um) max_tokens = Inr None)"
proof -
  obtain reply where r: "get_fallback_response w (Some um) = Inr reply"
    using get_fallback_response_string by blast
  have "\<exists>r. get_response w self (Some um) max_tokens = Inr r"
    by (simp add: get_response_def split: sum.splits)
  moreover have "get_response w self (Some um) max_tokens = Inr (Some reply)"
    if "\<not> (ai_provider self = ''perplexity'' \<and> truthy (perplexity_api_key self))"
       "\<not> truthy (openai_api_key self)"
    using that r by (auto simp add: get_response_def get_response_try_def)
  moreover have "get_response w self (Some um) max_tokens = Inr None"
    if "ai_provider self = ''perplexity''" "truthy (perplexity_api_key self)"
       "requests_post w (perplexity_api_key self) (Some um) max_tokens = Raises \<or>
        (\<exists>status content. status \<noteq> 200 \<and>
           requests_post w (perplexity_api_key self) (Some um) max_tokens =
             Returns (status, content))"
    using that by (rule get_response_provider_fails)
  ultimately show ?thesis using r by blast
qed

text \<open>
  With no key, a greeting gets the canned greeting; with a Perplexity key and the request
  raising, the same greeting gets \<open>None\<close>.
\<close>

theorem get_response_never_raises_witness:
  "\<not> (ai_provider unconfigured = ''perplexity'' \<and> truthy (perplexity_api_key unconfigured)) \<and>
   \<not> truthy (openai_api_key unconfigured) \<and>
   get_response offline unconfigured (Some ''Hello there'') 500 =
     Inr (Some ''Hello! How can I assist you today?'') \<and>
   ai_provider perplexity_keyed = ''perplexity'' \<and>
   truthy (perplexity_api_key perplexity_keyed) \<and>
   requests_post offline (perplexity_api_key perplexity_keyed) (Some ''Hello there'') 500 =
     Raises \<and>
   get_response offline perplexity_keyed (Some ''Hello there'') 500 = Inr None"
  using get_response_never_raises[of offline unconfigured "''Hello there''" 500]
    get_response_never_raises[of offline perplexity_keyed "''Hello there''" 500]
  by (simp add: history_defs truthy_def get_fallback_response_def ascii_lower_def
      lower_char_def sublist_code)

text \<open>
  No provider can be used: the only provider with a key raises on every request. The
  result is \<open>None\<close>, not the canned reply that the fallback computes for this input.
\<close>

theorem get_response_unavailable_counterexample:
  "get_response offline perplexity_keyed (Some ''Hello there'') 500 = Inr None \<and>
   get_fallback_response offline (Some ''Hello there'') =
     Inr ''Hello! How can I assist you today?''"
  by (simp add: history_defs truthy_def get_response_def get_response_try_def
      get_perplexity_response_def get_fallback_response_def ascii_lower_def lower_char_def
      sublist_code)

end
